theory Spec2Isabelle
  imports Main "HOL-Library.Word" "HOL-Library.Sublist"
begin

section \<open>LTE link control: a shallow embedding of \<open>drivers/lte_link_control/lte_lc.c\<close>\<close>

text \<open>
  The driver talks to the modem through \<open>at_cmd_write\<close>, reads parsed AT parameters through
  \<open>at_params_string_get\<close> and \<open>at_params_int_get\<close>, and waits on the Zephyr semaphore
  \<open>link\<close>. None of these is defined in \<open>lte_lc.c\<close>: the return value of every call to the
  AT library is an input of the model, and the semaphore is modelled separately below.

  Target conventions used throughout: \<open>u32_t\<close>, \<open>size_t\<close> and \<open>unsigned long\<close> are 32-bit
  words (the driver runs on a 32-bit Cortex-M), \<open>int\<close> is their two's-complement reading,
  and a C buffer is the list of all its bytes, terminating NULs included.
\<close>

subsection \<open>Constants\<close>

type_synonym u32_t = "32 word"

text \<open>\<open>errno.h\<close> is not part of the driver; the numbers are the usual ones and only their
  being distinct and nonzero matters.\<close>

definition EIO :: int where "EIO = 5"
definition EAGAIN :: int where "EAGAIN = 11"
definition ENOMEM :: int where "ENOMEM = 12"
definition EINVAL :: int where "EINVAL = 22"
definition ETIMEDOUT :: int where "ETIMEDOUT = 116"

definition AT_CEREG_ACTIVE_TIME_INDEX :: nat where "AT_CEREG_ACTIVE_TIME_INDEX = 8"
definition AT_CEREG_TAU_INDEX :: nat where "AT_CEREG_TAU_INDEX = 9"

text \<open>Lookup table for the T3324 timer (PSM active time), in seconds.\<close>

definition t3324_lookup :: "u32_t list" where
  "t3324_lookup = [2, 60, 600, 60, 60, 60, 60, 0]"

text \<open>Lookup table for the T3412 timer (periodic TAU), in seconds.\<close>

definition t3412_lookup :: "u32_t list" where
  "t3412_lookup = [600, 3600, 36000, 2, 30, 60, 1152000, 0]"

subsection \<open>\<open>strtoul\<close> in base 2\<close>

text \<open>
  The C library's \<open>strtoul(s, NULL, 2)\<close>: skip white space, take an optional sign, read
  binary digits up to the first character that is not one (the terminating NUL included),
  saturate at \<open>ULONG_MAX\<close> on overflow and otherwise negate the unsigned result after a
  minus sign. Without any digit the result is 0. The end pointer is \<open>NULL\<close> at every call
  of the driver, so where the digits stopped is not reported.
\<close>

definition NUL :: char where "NUL = CHR 0x00"

definition isspace :: "char \<Rightarrow> bool" where
  "isspace c = (c = CHR '' '' \<or> c = CHR 0x09 \<or> c = CHR 0x0A \<or> c = CHR 0x0B \<or>
                c = CHR 0x0C \<or> c = CHR 0x0D)"

fun strtoul_digits :: "nat \<Rightarrow> string \<Rightarrow> nat" where
  "strtoul_digits acc [] = acc"
| "strtoul_digits acc (c # cs) =
     (if c = CHR ''0'' then strtoul_digits (2 * acc) cs
      else if c = CHR ''1'' then strtoul_digits (2 * acc + 1) cs
      else acc)"

definition ULONG_MAX :: nat where "ULONG_MAX = 2 ^ 32 - 1"

definition strtoul :: "string \<Rightarrow> u32_t" where
  "strtoul nptr =
     (let s = dropWhile isspace nptr;
          neg = (s \<noteq> [] \<and> hd s = CHR ''-'');
          s = (if s \<noteq> [] \<and> (hd s = CHR ''-'' \<or> hd s = CHR ''+'') then tl s else s);
          acc = strtoul_digits 0 s
      in if ULONG_MAX < acc then of_nat ULONG_MAX
         else if neg then - of_nat acc
         else of_nat acc)"

subsection \<open>Reading the PSM timers: \<open>lte_lc_psm_get\<close>\<close>

text \<open>
  What the modem and the AT library answer during one call. \<open>string_get i buf len\<close> is the
  call \<open>at_params_string_get(&at_resp_list, i, timer_str, &timer_str_len)\<close> with
  \<open>timer_str\<close> holding \<open>buf\<close> and \<open>timer_str_len\<close> holding \<open>len\<close>: it answers the return
  code, the new contents of \<open>timer_str\<close> and the new \<open>timer_str_len\<close>.
\<close>

record psm_env =
  cereg_5_write :: int
  cereg_read_write :: int
  list_init :: int
  max_params_from_str :: int
  string_get :: "nat \<Rightarrow> string \<Rightarrow> nat \<Rightarrow> int \<times> string \<times> nat"

text \<open>
  The two output pointers are \<open>None\<close> when \<open>NULL\<close> and otherwise hold the \<open>int\<close> they point
  to (two distinct objects). The result is the return code with both outputs as they are
  at return.
\<close>

definition lte_lc_psm_get ::
  "psm_env \<Rightarrow> int option \<Rightarrow> int option \<Rightarrow> int \<times> int option \<times> int option" where
  "lte_lc_psm_get env tau active_time =
     (if tau = None \<or> active_time = None then (- EINVAL, tau, active_time)
      else if cereg_5_write env \<noteq> 0 then (cereg_5_write env, tau, active_time)
      else if cereg_read_write env \<noteq> 0 then (cereg_read_write env, tau, active_time)
      else if list_init env \<noteq> 0 then (list_init env, tau, active_time)
      else if max_params_from_str env \<noteq> 0 then (max_params_from_str env, tau, active_time)
      else
        let (err, timer_str, timer_str_len) =
              string_get env AT_CEREG_TAU_INDEX (replicate 9 NUL) 8
        in if err \<noteq> 0 then (err, tau, active_time)
        else
          let unit_str = take 3 timer_str @ [NUL];
              index = strtoul unit_str
          in if index > 7 then (- EINVAL, tau, active_time)
          else
            let timer_unit = t3412_lookup ! unat index;
                timer_value = strtoul (drop 3 timer_str);
                tau = Some (sint (if timer_unit \<noteq> 0 then timer_unit * timer_value else - 1));
                (err, timer_str, timer_str_len) =
                  string_get env AT_CEREG_ACTIVE_TIME_INDEX timer_str timer_str_len
            in if err \<noteq> 0 then (err, tau, active_time)
            else
              let unit_str = take 3 timer_str @ [NUL];
                  index = strtoul unit_str
              in if index > 7 then (- EINVAL, tau, active_time)
              else
                let timer_unit = t3324_lookup ! unat index;
                    timer_value = strtoul (drop 3 timer_str);
                    active_time =
                      Some (sint (if timer_unit \<noteq> 0 then timer_unit * timer_value else - 1))
                in (err, tau, active_time))"

text \<open>
  The number the source stores through an output pointer once a field has passed the index
  check (\<open>timer_unit ? timer_unit * timer_value : -1\<close>, computed in \<open>u32_t\<close> and converted
  to \<open>int\<close>), as a function of the lookup table and of the contents of \<open>timer_str\<close>.
\<close>

definition timer_seconds :: "u32_t list \<Rightarrow> string \<Rightarrow> int" where
  "timer_seconds lookup timer_str =
     (let timer_unit = lookup ! unat (strtoul (take 3 timer_str @ [NUL]));
          timer_value = strtoul (drop 3 timer_str)
      in sint (if timer_unit \<noteq> 0 then timer_unit * timer_value else - 1))"

text \<open>
  \<open>reads_fields env tau_str active_str\<close>: both commands, the list initialisation and the
  parser succeed, and the two calls of \<open>at_params_string_get\<close> return 0 leaving
  \<open>tau_str\<close>, then \<open>active_str\<close>, in \<open>timer_str\<close>.
\<close>

definition reads_fields :: "psm_env \<Rightarrow> string \<Rightarrow> string \<Rightarrow> bool" where
  "reads_fields env tau_str active_str =
     (let r1 = string_get env AT_CEREG_TAU_INDEX (replicate 9 NUL) 8;
          r2 = string_get env AT_CEREG_ACTIVE_TIME_INDEX (fst (snd r1)) (snd (snd r1))
      in cereg_5_write env = 0 \<and> cereg_read_write env = 0 \<and> list_init env = 0 \<and>
         max_params_from_str env = 0 \<and>
         fst r1 = 0 \<and> fst (snd r1) = tau_str \<and> fst r2 = 0 \<and> fst (snd r2) = active_str)"

text \<open>\<open>stored str buf\<close>: the buffer \<open>buf\<close> after \<open>str\<close> has been copied to its front, no
  terminator added.\<close>

definition stored :: "string \<Rightarrow> string \<Rightarrow> string" where
  "stored str buf = str @ drop (length str) buf"






text \<open>
  An 8-bit timer field as the modem writes it: \<open>bits w n\<close> is the number \<open>n\<close> in \<open>w\<close>
  binary digits, most significant first; a field is 3 unit bits followed by 5 magnitude
  bits.
\<close>

fun bits :: "nat \<Rightarrow> nat \<Rightarrow> string" where
  "bits 0 n = []"
| "bits (Suc w) n = bits w (n div 2) @ [if odd n then CHR ''1'' else CHR ''0'']"

definition timer_field :: "nat \<Rightarrow> nat \<Rightarrow> string" where
  "timer_field u m = bits 3 u @ bits 5 m"

text \<open>
  One modem for concrete runs (the properties below are stated for every \<open>psm_env\<close>): its
  commands all succeed and its registration reply carries the two given strings; each is
  copied to the front of \<open>timer_str\<close>, without a terminator, when it fits the length passed
  in, and is refused otherwise.
\<close>

definition cereg_reply :: "string \<Rightarrow> string \<Rightarrow> psm_env" where
  "cereg_reply tau_field active_field =
     \<lparr>cereg_5_write = 0, cereg_read_write = 0, list_init = 0, max_params_from_str = 0,
      string_get = (\<lambda>i buf len.
        let p = (if i = AT_CEREG_TAU_INDEX then tau_field else active_field)
        in if len < length p then (- ENOMEM, buf, len)
           else (0, stored p buf, length p))\<rparr>"

subsection \<open>The semaphore \<open>link\<close>\<close>

text \<open>
  The kernel semaphore behind \<open>k_sem_init\<close>, \<open>k_sem_give\<close> and \<open>k_sem_take\<close> is not
  defined in \<open>lte_lc.c\<close>. It is modelled as a count of pending signals with a limit; the
  source passes count 0 and limit 1 to \<open>k_sem_init\<close>.
\<close>

record k_sem =
  count :: nat
  limit :: nat

text \<open>Modelled from the spec: \<open>k_sem_init\<close> (kernel, not in \<open>lte_lc.c\<close>) puts the wait
  signal in the "not yet signaled" state; the source gives the initial count and the
  limit.\<close>

definition k_sem_init :: "nat \<Rightarrow> nat \<Rightarrow> k_sem" where
  "k_sem_init initial_count lim = \<lparr>count = initial_count, limit = lim\<rparr>"

text \<open>Modelled from the spec: \<open>k_sem_give\<close> (kernel, not in \<open>lte_lc.c\<close>) signals the
  waiter; a signal beyond the limit is coalesced with those pending.\<close>

definition k_sem_give :: "k_sem \<Rightarrow> k_sem" where
  "k_sem_give sem = (if count sem \<noteq> limit sem then sem\<lparr>count := count sem + 1\<rparr> else sem)"

text \<open>Modelled from the spec: \<open>k_sem_take\<close> (kernel, not in \<open>lte_lc.c\<close>) blocks on the wait
  signal for up to the timeout: it consumes a pending signal and returns 0, or the timeout
  elapses and it returns \<open>-EAGAIN\<close>, the value \<open>w_lte_lc_connect\<close> tests for.\<close>

definition k_sem_take :: "k_sem \<Rightarrow> int \<times> k_sem" where
  "k_sem_take sem =
     (if 0 < count sem then (0, sem\<lparr>count := count sem - 1\<rparr>) else (- EAGAIN, sem))"

subsection \<open>The notification handler: \<open>at_handler\<close>\<close>

text \<open>
  One unsolicited line as the handler meets it. \<open>line_id\<close> is the identifier at the head of
  the line, which the handler itself never sees: it only has what the AT library answers.
  \<open>id_string_get buf len\<close> is the call \<open>at_params_string_get(&params, 0, id, &len)\<close> on the
  parsed line, with \<open>id\<close> holding \<open>buf\<close>; \<open>val_int_get v\<close> is
  \<open>at_params_int_get(&params, 1, &val)\<close> with \<open>val\<close> holding \<open>v\<close>. Both return codes are
  discarded by the source. \<open>id\<close> and \<open>val\<close> are not initialised by the handler:
  \<open>id_stack\<close> and \<open>val_stack\<close> are what they hold at entry.
\<close>

record at_notification =
  line_id :: string
  id_string_get :: "string \<Rightarrow> nat \<Rightarrow> int \<times> string \<times> nat"
  val_int_get :: "u32_t \<Rightarrow> int \<times> u32_t"
  id_stack :: string
  val_stack :: u32_t

definition at_handler :: "at_notification \<Rightarrow> k_sem \<Rightarrow> k_sem" where
  "at_handler response link =
     (let (_, id, len) = id_string_get response (id_stack response) 16
      in if 0 < len \<and> take 6 id = ''+CEREG'' then
           let (_, val) = val_int_get response (val_stack response)
           in if val = 1 \<or> val = 5 then k_sem_give link else link
         else link)"



text \<open>
  One line for concrete runs (the properties below are stated for every
  \<open>at_notification\<close>): identifier \<open>tok\<close> and, when present, the integer parameter \<open>st\<close>.
  The identifier is copied to the front of \<open>id\<close> when it fits, the integer is stored in
  \<open>val\<close> when there is one, and \<open>id\<close> and \<open>val\<close> enter as zeroes.
\<close>

definition at_line :: "string \<Rightarrow> u32_t option \<Rightarrow> at_notification" where
  "at_line tok st =
     \<lparr>line_id = tok,
      id_string_get = (\<lambda>buf len.
        if len < length tok then (- ENOMEM, buf, len)
        else (0, stored tok buf, length tok)),
      val_int_get = (\<lambda>v. case st of None \<Rightarrow> (- EINVAL, v) | Some x \<Rightarrow> (0, x)),
      id_stack = replicate 16 NUL,
      val_stack = 0\<rparr>"


text \<open>What can happen to \<open>link\<close> once it is initialised: the handler runs on a line, or a
  wait on the semaphore returns.\<close>

datatype link_event = Notified at_notification | Waited

fun link_step :: "k_sem \<Rightarrow> link_event \<Rightarrow> k_sem" where
  "link_step sem (Notified response) = at_handler response sem"
| "link_step sem Waited = snd (k_sem_take sem)"

subsection \<open>Connecting: \<open>w_lte_lc_connect\<close>\<close>

text \<open>The command strings handed to \<open>at_cmd_write\<close>; \<open>current_network_mode\<close> points to one
  of the first two, and the source compares the pointers.\<close>

datatype at_cmd = nw_mode_preferred | nw_mode_fallback | normal | offline

text \<open>
  One call of \<open>w_lte_lc_connect\<close> is a sequence of steps, each a call of \<open>at_cmd_write\<close> or
  of \<open>k_sem_take\<close>, numbered from 0. The modem is given by the return value of
  \<open>at_cmd_write\<close> when it is step \<open>n\<close>, and by the unsolicited lines delivered to the
  registered handler before the \<open>k_sem_take\<close> that is step \<open>n\<close> returns (those that arrived
  since the previous step).
\<close>

record modem_env =
  write_result :: "nat \<Rightarrow> int"
  unsolicited :: "nat \<Rightarrow> at_notification list"

text \<open>
  The driver's globals (\<open>link\<close> and the handler slot of the AT library) together with the
  history of the call: each command written with the value \<open>at_cmd_write\<close> returned, and
  each value \<open>k_sem_take\<close> returned.
\<close>

datatype event = Write at_cmd int | Wait int

record lc_state =
  link :: k_sem
  notification_handler :: "(at_notification \<Rightarrow> k_sem \<Rightarrow> k_sem) option"
  history :: "event list"

fun commands :: "event list \<Rightarrow> at_cmd list" where
  "commands [] = []"
| "commands (Write cmd r # es) = cmd # commands es"
| "commands (Wait r # es) = commands es"

definition at_cmd_write :: "modem_env \<Rightarrow> at_cmd \<Rightarrow> lc_state \<Rightarrow> int \<times> lc_state" where
  "at_cmd_write env cmd s =
     (let r = write_result env (length (history s))
      in (r, s\<lparr>history := history s @ [Write cmd r]\<rparr>))"

definition k_sem_take_link :: "modem_env \<Rightarrow> lc_state \<Rightarrow> int \<times> lc_state" where
  "k_sem_take_link env s =
     (let lines = unsolicited env (length (history s));
          sem = (case notification_handler s of
                   None \<Rightarrow> link s
                 | Some handler \<Rightarrow> fold handler lines (link s));
          (err, sem) = k_sem_take sem
      in (err, s\<lparr>link := sem, history := history s @ [Wait err]\<rparr>))"

text \<open>
  The \<open>do \<dots> while (retry)\<close> loop; \<open>goto exit\<close> leaves it with the error. \<open>retry\<close> is set
  only while \<open>current_network_mode\<close> moves from the preferred to the fallback string, which
  is what bounds the loop.
\<close>

function connect_loop :: "bool \<Rightarrow> modem_env \<Rightarrow> at_cmd \<Rightarrow> lc_state \<Rightarrow> int \<times> lc_state" where
  "connect_loop use_fallback env current_network_mode s =
     (let (r, s) = at_cmd_write env current_network_mode s
      in if r \<noteq> 0 then (- EIO, s)
      else
        let (r, s) = at_cmd_write env normal s
        in if r \<noteq> 0 then (- EIO, s)
        else
          let (err, s) = k_sem_take_link env s
          in if err = - EAGAIN then
               if use_fallback \<and> current_network_mode = nw_mode_preferred then
                 let (r, s) = at_cmd_write env offline s
                 in if r \<noteq> 0 then (- EIO, s)
                    else connect_loop use_fallback env nw_mode_fallback s
               else (- ETIMEDOUT, s)
             else (err, s))"
  by pat_completeness auto
termination
  by (relation "measure (\<lambda>(use_fallback, env, mode, s). if mode = nw_mode_preferred then 1 else 0)")
     auto

text \<open>
  \<open>use_fallback\<close> is \<open>IS_ENABLED(CONFIG_LTE_NETWORK_USE_FALLBACK)\<close>. The call starts from
  the globals as the caller left them, \<open>s0\<close>, with a history of its own. The parameter
  list \<open>params\<close> is initialised and freed around the loop; the handler's use of it is part
  of each \<open>at_notification\<close>.
\<close>

definition w_lte_lc_connect :: "bool \<Rightarrow> modem_env \<Rightarrow> lc_state \<Rightarrow> int \<times> lc_state" where
  "w_lte_lc_connect use_fallback env s0 =
     (let s = s0\<lparr>link := k_sem_init 0 1, notification_handler := Some at_handler,
                 history := []\<rparr>;
          (err, s) = connect_loop use_fallback env nw_mode_preferred s
      in (err, s\<lparr>notification_handler := None\<rparr>))"

text \<open>The globals before the first call: static storage is zeroed, no handler is set.\<close>

definition boot :: lc_state where
  "boot = \<lparr>link = \<lparr>count = 0, limit = 0\<rparr>, notification_handler = None, history = []\<rparr>"

text \<open>The state a call returns in: the semaphore as the loop left it, no handler, the
  history of the call.\<close>

definition returned :: "k_sem \<Rightarrow> event list \<Rightarrow> lc_state" where
  "returned sem h = \<lparr>link = sem, notification_handler = None, history = h\<rparr>"


declare connect_loop.simps [simp del]

text \<open>\<open>timed_out h k\<close>: step \<open>k\<close> of the history is a wait that ended with the timeout.\<close>

definition timed_out :: "event list \<Rightarrow> nat \<Rightarrow> bool" where
  "timed_out h k = (k < length h \<and> h ! k = Wait (- EAGAIN))"

text \<open>A modem that answers the writes as given and never sends an unsolicited line.\<close>

definition quiet_modem :: "(nat \<Rightarrow> int) \<Rightarrow> modem_env" where
  "quiet_modem results = \<lparr>write_result = results, unsolicited = (\<lambda>n. [])\<rparr>"

section \<open>Properties\<close>

subsection \<open>Binary strings under \<open>strtoul\<close>\<close>

lemma length_bits [simp]: "length (bits w n) = w"
  by (induction w arbitrary: n) auto

lemma strtoul_digits_bits:
  "n < 2 ^ w \<Longrightarrow> strtoul_digits acc (bits w n @ rest) = strtoul_digits (acc * 2 ^ w + n) rest"
proof (induction w arbitrary: n rest)
  case 0
  then show ?case by simp
next
  case (Suc w)
  have d: "n div 2 < 2 ^ w" using Suc.prems by simp
  have e: "2 * (acc * 2 ^ w + n div 2) + (if odd n then 1 else 0) = acc * 2 ^ Suc w + n"
    by (simp add: algebra_simps)
  have "strtoul_digits acc (bits (Suc w) n @ rest) =
        strtoul_digits acc (bits w (n div 2) @ ((if odd n then CHR ''1'' else CHR ''0'') # rest))"
    by simp
  also have "\<dots> = strtoul_digits (acc * 2 ^ w + n div 2)
                     ((if odd n then CHR ''1'' else CHR ''0'') # rest)"
    by (rule Suc.IH [OF d])
  also have "\<dots> = strtoul_digits (2 * (acc * 2 ^ w + n div 2) + (if odd n then 1 else 0)) rest"
    by simp
  also have "\<dots> = strtoul_digits (acc * 2 ^ Suc w + n) rest"
    by (simp only: e)
  finally show ?case .
qed

lemma set_bits: "set (bits w n) \<subseteq> {CHR ''0'', CHR ''1''}"
  by (induction w arbitrary: n) auto


lemma strtoul_digits_NUL [simp]: "strtoul_digits acc (NUL # rest) = acc"
  by (simp add: NUL_def)

lemma strtoul_bits:
  assumes "n < 2 ^ w" "w \<le> 32"
  shows "strtoul (bits w n @ NUL # rest) = of_nat n"
proof -
  have nsp: "dropWhile isspace (bits w n @ NUL # rest) = bits w n @ NUL # rest"
  proof (cases "bits w n")
    case Nil then show ?thesis by (simp add: isspace_def NUL_def)
  next
    case (Cons c cs)
    then have "c \<in> {CHR ''0'', CHR ''1''}" using set_bits [of w n] by auto
    then show ?thesis using Cons by (auto simp: isspace_def)
  qed
  have nsg: "hd (bits w n @ NUL # rest) \<noteq> CHR ''-'' \<and> hd (bits w n @ NUL # rest) \<noteq> CHR ''+''"
  proof (cases "bits w n")
    case Nil then show ?thesis by (simp add: NUL_def)
  next
    case (Cons c cs)
    then have "c \<in> {CHR ''0'', CHR ''1''}" using set_bits [of w n] by auto
    then show ?thesis using Cons by auto
  qed
  have "strtoul_digits 0 (bits w n @ NUL # rest) = strtoul_digits (0 * 2 ^ w + n) (NUL # rest)"
    by (rule strtoul_digits_bits [OF assms(1)])
  then have dg: "strtoul_digits 0 (bits w n @ NUL # rest) = n"
    by (simp add: NUL_def)
  have "(2::nat) ^ w \<le> 2 ^ 32" using assms(2) by (rule power_increasing) simp
  then have le: "\<not> ULONG_MAX < n" using assms(1) by (simp add: ULONG_MAX_def)
  show ?thesis
    using nsp nsg dg le by (simp add: strtoul_def Let_def)
qed


lemma strtoul_digits_bound: "strtoul_digits acc s < (acc + 1) * 2 ^ length s"
proof (induction s arbitrary: acc)
  case Nil
  then show ?case by simp
next
  case (Cons c cs)
  have a: "strtoul_digits (2 * acc) cs < (acc + 1) * 2 ^ length (c # cs)"
    using Cons.IH [of "2 * acc"] by (simp add: algebra_simps) 
  have b: "strtoul_digits (2 * acc + 1) cs < (acc + 1) * 2 ^ length (c # cs)"
    using Cons.IH [of "2 * acc + 1"] by (simp add: algebra_simps)
  have c: "acc < (acc + 1) * 2 ^ length (c # cs)"
    by (metis One_nat_def Suc_eq_plus1 less_add_one less_le_trans mult.right_neutral mult_le_mono2 one_le_numeral one_le_power)
  show ?case using a b c by simp
qed

lemma strtoul_digits_snoc_NUL: "strtoul_digits acc (s @ [NUL]) = strtoul_digits acc s"
  by (induction s arbitrary: acc) (auto simp: NUL_def)


lemma unat_of_nat_u32: "n < 2 ^ 32 \<Longrightarrow> unat (of_nat n :: u32_t) = n"
  by (simp add: unat_of_nat)

lemma sint_of_nat_u32: "n < 2 ^ 31 \<Longrightarrow> sint (of_nat n :: u32_t) = int n"
proof -
  assume a: "n < 2 ^ 31"
  have "int n < 2 ^ 31" using a by (metis of_nat_less_iff of_nat_numeral of_nat_power)
  then have "signed_take_bit 31 (int n) = int n"
    by (simp add: signed_take_bit_int_eq_self)
  then show ?thesis by (simp add: signed_of_nat)
qed

lemma strtoul_no_minus:
  assumes "CHR ''-'' \<notin> set s"
  shows "\<exists>k < 2 ^ length s. strtoul (s @ [NUL]) = of_nat k"
proof -
  define t where "t = dropWhile isspace s"
  have nsp: "\<not> isspace NUL" by (simp add: isspace_def NUL_def)
  have dw: "dropWhile isspace (s @ [NUL]) = t @ [NUL]"
    unfolding t_def using nsp by (simp add: dropWhile_append3)
  have tset: "set t \<subseteq> set s" unfolding t_def by (auto dest: set_dropWhileD)
  have tlen: "length t \<le> length s" unfolding t_def by (simp add: length_dropWhile_le)
  have nneg: "hd (t @ [NUL]) \<noteq> CHR ''-''"
    using assms tset by (cases t) (auto simp: NUL_def)
  define t1 where "t1 = (if hd (t @ [NUL]) = CHR ''+'' then tl t else t)"
  have t1eq: "(if t @ [NUL] \<noteq> [] \<and> (hd (t @ [NUL]) = CHR ''-'' \<or> hd (t @ [NUL]) = CHR ''+'')
               then tl (t @ [NUL]) else t @ [NUL]) = t1 @ [NUL]"
    unfolding t1_def using nneg by (cases t) (auto simp: NUL_def)
  have t1len: "length t1 \<le> length s" unfolding t1_def using tlen by auto
  define acc where "acc = strtoul_digits 0 t1"
  have a1: "acc < 2 ^ length t1"
    using strtoul_digits_bound [of 0 t1] by (simp add: acc_def)
  have a2: "(2::nat) ^ length t1 \<le> 2 ^ length s"
    using t1len by (rule power_increasing) simp
  have accb: "acc < 2 ^ length s"
    using a1 a2 by (rule less_le_trans)
  have st: "strtoul (s @ [NUL]) = (if ULONG_MAX < acc then of_nat ULONG_MAX else of_nat acc)"
    using dw nneg t1eq by (simp add: strtoul_def Let_def acc_def strtoul_digits_snoc_NUL)
  show ?thesis
  proof (cases "ULONG_MAX < acc")
    case True
    then show ?thesis using st accb by (intro exI [of _ ULONG_MAX]) simp
  next
    case False
    then show ?thesis using st accb by (intro exI [of _ acc]) simp
  qed
qed

lemma strtoul_unit_str_le7:
  assumes "CHR ''-'' \<notin> set (take 3 buf)"
  shows "strtoul (take 3 buf @ [NUL]) \<le> 7 \<and> unat (strtoul (take 3 buf @ [NUL])) < 8"
proof -
  obtain k where k: "k < 2 ^ length (take 3 buf)" "strtoul (take 3 buf @ [NUL]) = of_nat k"
    using strtoul_no_minus [OF assms] by blast
  have "(2::nat) ^ length (take 3 buf) \<le> 2 ^ 3" by (rule power_increasing) simp_all
  then have k8: "k < 8" using k(1) by simp
  then have u: "unat (of_nat k :: u32_t) = k" by (simp add: unat_of_nat_u32)
  have "(of_nat k :: u32_t) \<le> 7" using u k8 by (simp add: word_le_nat_alt)
  then show ?thesis using k(2) u k8 by simp
qed


lemma lte_lc_psm_get_steps:
  assumes "cereg_5_write env = 0" "cereg_read_write env = 0" "list_init env = 0"
    "max_params_from_str env = 0"
    "string_get env AT_CEREG_TAU_INDEX (replicate 9 NUL) 8 = (0, b1, n1)"
    "string_get env AT_CEREG_ACTIVE_TIME_INDEX b1 n1 = (e2, b2, n2)"
  shows "lte_lc_psm_get env (Some t0) (Some a0) =
     (if 7 < strtoul (take 3 b1 @ [NUL]) then (- EINVAL, Some t0, Some a0)
      else if e2 \<noteq> 0 then (e2, Some (timer_seconds t3412_lookup b1), Some a0)
      else if 7 < strtoul (take 3 b2 @ [NUL])
        then (- EINVAL, Some (timer_seconds t3412_lookup b1), Some a0)
      else (0, Some (timer_seconds t3412_lookup b1), Some (timer_seconds t3324_lookup b2)))"
  using assms by (simp add: lte_lc_psm_get_def timer_seconds_def Let_def)

lemma lte_lc_psm_get_fields:
  assumes "reads_fields env b1 b2"
  shows "lte_lc_psm_get env (Some t0) (Some a0) =
     (if 7 < strtoul (take 3 b1 @ [NUL]) then (- EINVAL, Some t0, Some a0)
      else if 7 < strtoul (take 3 b2 @ [NUL])
        then (- EINVAL, Some (timer_seconds t3412_lookup b1), Some a0)
      else (0, Some (timer_seconds t3412_lookup b1), Some (timer_seconds t3324_lookup b2)))"
proof -
  obtain e1 c1 n1 where r1: "string_get env AT_CEREG_TAU_INDEX (replicate 9 NUL) 8 = (e1, c1, n1)"
    by (cases "string_get env AT_CEREG_TAU_INDEX (replicate 9 NUL) 8") auto
  obtain e2 c2 n2 where r2: "string_get env AT_CEREG_ACTIVE_TIME_INDEX c1 n1 = (e2, c2, n2)"
    by (cases "string_get env AT_CEREG_ACTIVE_TIME_INDEX c1 n1") auto
  have p: "cereg_5_write env = 0" "cereg_read_write env = 0" "list_init env = 0"
    "max_params_from_str env = 0" "e1 = 0" "c1 = b1" "e2 = 0" "c2 = b2"
    using assms r1 r2 by (simp_all add: reads_fields_def Let_def)
  show ?thesis
    using lte_lc_psm_get_steps [OF p(1-4), of b1 n1 e2 b2 n2 t0 a0] r1 r2 p(5-8) by simp
qed

lemma reads_fields_cereg_reply:
  assumes "length f1 = 8" "length f2 = 8"
  shows "reads_fields (cereg_reply f1 f2) (f1 @ [NUL]) (f2 @ [NUL])"
  using assms
  by (simp add: reads_fields_def cereg_reply_def stored_def Let_def AT_CEREG_TAU_INDEX_def
      AT_CEREG_ACTIVE_TIME_INDEX_def)


lemma timer_seconds_field:
  assumes "u < 8" "m < 32" "unat (tbl ! u) * m < 2 ^ 31"
  shows "timer_seconds tbl (timer_field u m @ [NUL]) =
           (if tbl ! u = 0 then - 1 else int (unat (tbl ! u)) * int m)"
proof -
  have tk: "take 3 (timer_field u m @ [NUL]) = bits 3 u"
    by (simp add: timer_field_def)
  have dr: "drop 3 (timer_field u m @ [NUL]) = bits 5 m @ [NUL]"
    by (simp add: timer_field_def)
  have su: "strtoul (bits 3 u @ [NUL]) = of_nat u"
    using assms(1) by (intro strtoul_bits) simp_all
  have sm: "strtoul (bits 5 m @ [NUL]) = of_nat m"
    using assms(2) by (intro strtoul_bits) simp_all
  have uu: "unat (of_nat u :: u32_t) = u"
    using assms(1) by (simp add: unat_of_nat_u32)
  have pr: "tbl ! u * (of_nat m :: u32_t) = of_nat (unat (tbl ! u) * m)"
    by simp
  have sp: "sint (tbl ! u * (of_nat m :: u32_t)) = int (unat (tbl ! u) * m)"
    unfolding pr using assms(3) by (rule sint_of_nat_u32)
  have "timer_seconds tbl (timer_field u m @ [NUL]) =
          sint (if tbl ! u \<noteq> 0 then tbl ! u * of_nat m else - 1)"
    unfolding timer_seconds_def tk dr su sm uu Let_def ..
  then show ?thesis
    using sp by simp
qed

lemma t3412_lookup_bound: "u < 8 \<Longrightarrow> unat (t3412_lookup ! u) \<le> 1152000"
proof -
  assume "u < 8"
  then have "u = 0 \<or> u = 1 \<or> u = 2 \<or> u = 3 \<or> u = 4 \<or> u = 5 \<or> u = 6 \<or> u = 7"
    by arith
  then show ?thesis
    by (elim disjE) (simp_all add: t3412_lookup_def)
qed

lemma t3324_lookup_bound: "u < 8 \<Longrightarrow> unat (t3324_lookup ! u) \<le> 600"
proof -
  assume "u < 8"
  then have "u = 0 \<or> u = 1 \<or> u = 2 \<or> u = 3 \<or> u = 4 \<or> u = 5 \<or> u = 6 \<or> u = 7"
    by arith
  then show ?thesis
    by (elim disjE) (simp_all add: t3324_lookup_def)
qed

lemma product_fits:
  assumes "(a::nat) \<le> 1152000" "m < 32"
  shows "a * m < 2 ^ 31"
proof -
  have "a * m \<le> 1152000 * 31"
    using assms by (intro mult_le_mono) simp_all
  then show ?thesis by simp
qed

lemma timer_field_unit_le7: "strtoul (take 3 (timer_field u m @ [NUL]) @ [NUL]) \<le> 7"
proof -
  have "set (take 3 (timer_field u m @ [NUL])) \<subseteq> {CHR ''0'', CHR ''1''}"
    using set_bits [of 3 u] by (simp add: timer_field_def)
  then have "CHR ''-'' \<notin> set (take 3 (timer_field u m @ [NUL]))"
    by auto
  then show ?thesis
    using strtoul_unit_str_le7 by blast
qed

text \<open>
  Claim C1. For every unit selector \<open>u\<close> in 0..7 and magnitude \<open>m\<close> in 0..31, a reply whose
  TAU field and active-time field are 8-bit fields (3 unit bits, 5 magnitude bits) is
  decoded by \<open>lte_lc_psm_get\<close>, with the table of each timer, to -1 ("deactivated") when
  the table entry of the unit is 0 and to entry times magnitude seconds otherwise.
\<close>

theorem decode_timer_field:
  assumes "u1 < 8" "m1 < 32" "u2 < 8" "m2 < 32"
    and "reads_fields env (timer_field u1 m1 @ [NUL]) (timer_field u2 m2 @ [NUL])"
  shows "lte_lc_psm_get env (Some t0) (Some a0) =
     (0,
      Some (if t3412_lookup ! u1 = 0 then - 1 else int (unat (t3412_lookup ! u1)) * int m1),
      Some (if t3324_lookup ! u2 = 0 then - 1 else int (unat (t3324_lookup ! u2)) * int m2))"
proof -
  have i1: "\<not> 7 < strtoul (take 3 (timer_field u1 m1 @ [NUL]) @ [NUL])"
    using timer_field_unit_le7 [of u1 m1] by (simp add: not_less)
  have i2: "\<not> 7 < strtoul (take 3 (timer_field u2 m2 @ [NUL]) @ [NUL])"
    using timer_field_unit_le7 [of u2 m2] by (simp add: not_less)
  have f1: "unat (t3412_lookup ! u1) * m1 < 2 ^ 31"
    using t3412_lookup_bound [OF assms(1)] assms(2) by (rule product_fits)
  have "unat (t3324_lookup ! u2) \<le> 1152000"
    using t3324_lookup_bound [OF assms(3)] by simp
  then have f2: "unat (t3324_lookup ! u2) * m2 < 2 ^ 31"
    using assms(4) by (rule product_fits)
  show ?thesis
    using lte_lc_psm_get_fields [OF assms(5), of t0 a0] i1 i2
      timer_seconds_field [OF assms(1,2) f1] timer_seconds_field [OF assms(3,4) f2]
    by simp
qed


text \<open>The largest TAU unit and a ten-minute active-time unit, both with magnitude 31.\<close>

theorem decode_timer_field_witness:
  "(6::nat) < 8 \<and> (31::nat) < 32 \<and> (2::nat) < 8 \<and>
   reads_fields (cereg_reply (timer_field 6 31) (timer_field 2 31))
     (timer_field 6 31 @ [NUL]) (timer_field 2 31 @ [NUL]) \<and>
   lte_lc_psm_get (cereg_reply (timer_field 6 31) (timer_field 2 31)) (Some 0) (Some 0) =
     (0, Some 35712000, Some 18600)"
proof -
  have r: "reads_fields (cereg_reply (timer_field 6 31) (timer_field 2 31))
     (timer_field 6 31 @ [NUL]) (timer_field 2 31 @ [NUL])"
    by (rule reads_fields_cereg_reply) (simp_all add: timer_field_def)
  have a: "(6::nat) < 8" and b: "(31::nat) < 32" and c: "(2::nat) < 8" by simp_all
  show ?thesis
    using decode_timer_field [OF a b c b r, of 0 0] r
    by (simp add: t3412_lookup_def t3324_lookup_def)
qed

subsection \<open>Decoding the timers\<close>

lemma strtoul_eval:
  "strtoul s =
     (let s = dropWhile isspace s;
          neg = (s \<noteq> [] \<and> hd s = CHR ''-'');
          s = (if s \<noteq> [] \<and> (hd s = CHR ''-'' \<or> hd s = CHR ''+'') then tl s else s);
          acc = strtoul_digits 0 s
      in if 4294967295 < acc then 4294967295
         else if neg then - of_nat acc
         else of_nat acc)"
  by (simp add: strtoul_def ULONG_MAX_def Let_def)

lemma strtoul_digits_replicate_NUL [simp]:
  "strtoul_digits acc (replicate n (CHR 0x00)) = acc"
  by (cases n) simp_all

text \<open>
  Claim C8. The tables hold the values the examples need (active-time entry 1 is 60, TAU
  entry 0 is 600, entry 7 is 0 in both), so that the active-time field 00100101 decodes to
  300 seconds, the TAU field 00000010 to 1200 seconds, and the field 11100000 to -1
  ("deactivated") with either table.
\<close>

theorem spec_examples:
  "t3324_lookup ! 1 = 60 \<and> t3412_lookup ! 0 = 600 \<and> t3324_lookup ! 7 = 0 \<and>
   t3412_lookup ! 7 = 0 \<and>
   lte_lc_psm_get (cereg_reply ''00000010'' ''00100101'') (Some t0) (Some a0) =
     (0, Some 1200, Some 300) \<and>
   lte_lc_psm_get (cereg_reply ''11100000'' ''11100000'') (Some t0) (Some a0) =
     (0, Some (- 1), Some (- 1))"
  by (simp add: t3324_lookup_def t3412_lookup_def lte_lc_psm_get_def cereg_reply_def stored_def
      AT_CEREG_TAU_INDEX_def AT_CEREG_ACTIVE_TIME_INDEX_def strtoul_eval isspace_def NUL_def
      Let_def)


text \<open>
  Claim C9. For well-formed fields (eight characters, each 0 or 1) the index parsed from
  the first three characters is at most 7: it is within both lookup tables, neither
  \<open>index > 7\<close> check fires and \<open>lte_lc_psm_get\<close> returns 0.
\<close>

theorem unit_index_within_table:
  assumes "length f1 = 8" "set f1 \<subseteq> {CHR ''0'', CHR ''1''}"
    and "length f2 = 8" "set f2 \<subseteq> {CHR ''0'', CHR ''1''}"
    and "reads_fields env (f1 @ [NUL]) (f2 @ [NUL])"
  shows "strtoul (take 3 (f1 @ [NUL]) @ [NUL]) \<le> 7 \<and>
         unat (strtoul (take 3 (f1 @ [NUL]) @ [NUL])) < length t3412_lookup \<and>
         strtoul (take 3 (f2 @ [NUL]) @ [NUL]) \<le> 7 \<and>
         unat (strtoul (take 3 (f2 @ [NUL]) @ [NUL])) < length t3324_lookup \<and>
         fst (lte_lc_psm_get env (Some t0) (Some a0)) = 0"
proof -
  have "set (take 3 (f1 @ [NUL])) \<subseteq> set f1"
    using assms(1) by (auto dest: in_set_takeD)
  then have m1: "CHR ''-'' \<notin> set (take 3 (f1 @ [NUL]))"
    using assms(2) by auto
  have "set (take 3 (f2 @ [NUL])) \<subseteq> set f2"
    using assms(3) by (auto dest: in_set_takeD)
  then have m2: "CHR ''-'' \<notin> set (take 3 (f2 @ [NUL]))"
    using assms(4) by auto
  note b1 = strtoul_unit_str_le7 [OF m1] and b2 = strtoul_unit_str_le7 [OF m2]
  have n1: "\<not> 7 < strtoul (take 3 (f1 @ [NUL]) @ [NUL])"
    unfolding not_less using b1 by (rule conjunct1)
  have n2: "\<not> 7 < strtoul (take 3 (f2 @ [NUL]) @ [NUL])"
    unfolding not_less using b2 by (rule conjunct1)
  have len: "length t3412_lookup = 8" "length t3324_lookup = 8"
    by (simp_all add: t3412_lookup_def t3324_lookup_def)
  have "fst (lte_lc_psm_get env (Some t0) (Some a0)) = 0"
    unfolding lte_lc_psm_get_fields [OF assms(5)] by (simp only: n1 n2 if_False fst_conv)
  then show ?thesis
    using b1 b2 unfolding len by blast
qed

text \<open>
  The fields of the examples: unit 7 for the TAU, unit 1 for the active time.
\<close>

theorem unit_index_within_table_witness:
  "length ''11100000'' = 8 \<and> set ''11100000'' \<subseteq> {CHR ''0'', CHR ''1''} \<and>
   length ''00100101'' = 8 \<and> set ''00100101'' \<subseteq> {CHR ''0'', CHR ''1''} \<and>
   reads_fields (cereg_reply ''11100000'' ''00100101'') (''11100000'' @ [NUL])
     (''00100101'' @ [NUL]) \<and>
   strtoul (take 3 (''11100000'' @ [NUL]) @ [NUL]) \<le> 7 \<and>
   unat (strtoul (take 3 (''11100000'' @ [NUL]) @ [NUL])) < length t3412_lookup \<and>
   strtoul (take 3 (''00100101'' @ [NUL]) @ [NUL]) \<le> 7 \<and>
   unat (strtoul (take 3 (''00100101'' @ [NUL]) @ [NUL])) < length t3324_lookup \<and>
   fst (lte_lc_psm_get (cereg_reply ''11100000'' ''00100101'') (Some 0) (Some 0)) = 0"
proof -
  have l1: "length ''11100000'' = 8" and l2: "length ''00100101'' = 8" by simp_all
  have s1: "set ''11100000'' \<subseteq> {CHR ''0'', CHR ''1''}"
   and s2: "set ''00100101'' \<subseteq> {CHR ''0'', CHR ''1''}" by simp_all
  have r: "reads_fields (cereg_reply ''11100000'' ''00100101'') (''11100000'' @ [NUL])
     (''00100101'' @ [NUL])"
    by (rule reads_fields_cereg_reply) simp_all
  show ?thesis
    using unit_index_within_table [OF l1 s1 l2 s2 r, of 0 0] l1 l2 s1 s2 r by blast
qed

text \<open>
  Claim C10. When the TAU field is read and decoded and the active-time field then fails,
  either in \<open>at_params_string_get\<close> or at its index check, \<open>lte_lc_psm_get\<close> returns that
  error with \<open>*tau\<close> already overwritten by the decoded TAU value and \<open>*active_time\<close> as
  the caller left it.
\<close>

theorem psm_get_tau_written_before_error:
  assumes "cereg_5_write env = 0" "cereg_read_write env = 0" "list_init env = 0"
    "max_params_from_str env = 0"
    and "string_get env AT_CEREG_TAU_INDEX (replicate 9 NUL) 8 = (0, b1, n1)"
    and "strtoul (take 3 b1 @ [NUL]) \<le> 7"
    and "string_get env AT_CEREG_ACTIVE_TIME_INDEX b1 n1 = (e2, b2, n2)"
    and "e2 \<noteq> 0 \<or> 7 < strtoul (take 3 b2 @ [NUL])"
  shows "lte_lc_psm_get env (Some t0) (Some a0) =
           (if e2 \<noteq> 0 then e2 else - EINVAL, Some (timer_seconds t3412_lookup b1), Some a0) \<and>
         fst (lte_lc_psm_get env (Some t0) (Some a0)) \<noteq> 0"
  using lte_lc_psm_get_steps [OF assms(1-5) assms(7), of t0 a0] assms(6,8)
  by (auto simp: not_less EINVAL_def)

text \<open>
  An active-time string of nine characters does not fit the eight bytes offered and is
  refused after the TAU has been stored.
\<close>

theorem psm_get_tau_written_before_error_witness:
  "cereg_5_write (cereg_reply ''00000010'' ''001001011'') = 0 \<and>
   cereg_read_write (cereg_reply ''00000010'' ''001001011'') = 0 \<and>
   list_init (cereg_reply ''00000010'' ''001001011'') = 0 \<and>
   max_params_from_str (cereg_reply ''00000010'' ''001001011'') = 0 \<and>
   string_get (cereg_reply ''00000010'' ''001001011'') AT_CEREG_TAU_INDEX (replicate 9 NUL) 8 =
     (0, ''00000010'' @ [NUL], 8) \<and>
   strtoul (take 3 (''00000010'' @ [NUL]) @ [NUL]) \<le> 7 \<and>
   string_get (cereg_reply ''00000010'' ''001001011'') AT_CEREG_ACTIVE_TIME_INDEX
     (''00000010'' @ [NUL]) 8 = (- ENOMEM, ''00000010'' @ [NUL], 8) \<and>
   - ENOMEM \<noteq> 0 \<and>
   lte_lc_psm_get (cereg_reply ''00000010'' ''001001011'') (Some 7) (Some 9) =
     (- ENOMEM, Some 1200, Some 9)"
proof -
  let ?env = "cereg_reply ''00000010'' ''001001011''"
  have p: "cereg_5_write ?env = 0" "cereg_read_write ?env = 0" "list_init ?env = 0"
    "max_params_from_str ?env = 0"
    by (simp_all add: cereg_reply_def stored_def)
  have g1: "string_get ?env AT_CEREG_TAU_INDEX (replicate 9 NUL) 8 = (0, ''00000010'' @ [NUL], 8)"
    by (simp add: cereg_reply_def stored_def)
  have ix: "strtoul (take 3 (''00000010'' @ [NUL]) @ [NUL]) \<le> 7"
    by (simp add: strtoul_eval isspace_def NUL_def)
  have g2: "string_get ?env AT_CEREG_ACTIVE_TIME_INDEX (''00000010'' @ [NUL]) 8 =
      (- ENOMEM, ''00000010'' @ [NUL], 8)"
    by (simp add: cereg_reply_def stored_def AT_CEREG_TAU_INDEX_def AT_CEREG_ACTIVE_TIME_INDEX_def)
  have ne: "- ENOMEM \<noteq> 0 \<or> 7 < strtoul (take 3 (''00000010'' @ [NUL]) @ [NUL])"
    by (simp add: ENOMEM_def)
  have ts: "timer_seconds t3412_lookup (''00000010'' @ [NUL]) = 1200"
    by (simp add: timer_seconds_def t3412_lookup_def strtoul_eval isspace_def NUL_def)
  show ?thesis
    using psm_get_tau_written_before_error [OF p g1 ix g2 ne, of 7 9] p g1 ix g2 ts
    by (simp add: ENOMEM_def)
qed














subsection \<open>The semaphore and the handler\<close>

lemma k_sem_give_inv: "count sem \<le> limit sem \<Longrightarrow>
    count (k_sem_give sem) \<le> limit (k_sem_give sem) \<and> limit (k_sem_give sem) = limit sem"
  by (simp add: k_sem_give_def)

lemma k_sem_take_inv: "count sem \<le> limit sem \<Longrightarrow>
    count (snd (k_sem_take sem)) \<le> limit (snd (k_sem_take sem)) \<and>
    limit (snd (k_sem_take sem)) = limit sem"
  by (auto simp: k_sem_take_def)

lemma at_handler_cases: "at_handler response sem = sem \<or> at_handler response sem = k_sem_give sem"
  by (simp add: at_handler_def Let_def split: prod.splits)

lemma link_step_inv: "count sem \<le> limit sem \<Longrightarrow>
    count (link_step sem e) \<le> limit (link_step sem e) \<and> limit (link_step sem e) = limit sem"
proof (cases e)
  case (Notified response)
  assume "count sem \<le> limit sem"
  then show ?thesis
    using at_handler_cases [of response sem] k_sem_give_inv [of sem] Notified by auto
next
  case Waited
  assume "count sem \<le> limit sem"
  then show ?thesis
    using k_sem_take_inv [of sem] Waited by simp
qed

lemma foldl_link_step_inv: "count sem \<le> limit sem \<Longrightarrow>
    count (foldl link_step sem es) \<le> limit sem \<and> limit (foldl link_step sem es) = limit sem"
proof (induction es arbitrary: sem)
  case Nil
  then show ?case by simp
next
  case (Cons e es)
  have "count (link_step sem e) \<le> limit (link_step sem e)" and l: "limit (link_step sem e) = limit sem"
    using link_step_inv [OF Cons.prems, of e] by simp_all
  then show ?case
    using Cons.IH [of "link_step sem e"] by simp
qed

text \<open>
  Claim C7. \<open>w_lte_lc_connect\<close> initialises \<open>link\<close> with count 0 and limit 1. From there,
  whatever lines the handler is run on and whenever a wait returns, at most one signal is
  pending; a second \<open>k_sem_give\<close> before a wait changes nothing.
\<close>

theorem link_pending_at_most_one:
  "count (foldl link_step (k_sem_init 0 1) es) \<le> 1 \<and>
   k_sem_give (k_sem_give (k_sem_init 0 1)) = k_sem_give (k_sem_init 0 1)"
  using foldl_link_step_inv [of "k_sem_init 0 1" es]
  by (simp add: k_sem_init_def k_sem_give_def)


subsection \<open>The runs of \<open>w_lte_lc_connect\<close>\<close>

lemma at_cmd_write_keeps_handler:
  "notification_handler (snd (at_cmd_write env cmd s)) = notification_handler s"
  by (simp add: at_cmd_write_def Let_def)

lemma k_sem_take_link_keeps_handler:
  "notification_handler (snd (k_sem_take_link env s)) = notification_handler s"
  by (simp add: k_sem_take_link_def Let_def split: prod.splits)

lemma connect_loop_pass:
  assumes "at_cmd_write env current_network_mode s = (r1, s1)"
    and "at_cmd_write env normal s1 = (r2, s2)"
    and "k_sem_take_link env s2 = (e, s3)"
    and "at_cmd_write env offline s3 = (r3, s4)"
  shows "connect_loop use_fallback env current_network_mode s =
     (if r1 \<noteq> 0 then (- EIO, s1)
      else if r2 \<noteq> 0 then (- EIO, s2)
      else if e = - EAGAIN then
        if use_fallback \<and> current_network_mode = nw_mode_preferred then
          if r3 \<noteq> 0 then (- EIO, s4)
          else connect_loop use_fallback env nw_mode_fallback s4
        else (- ETIMEDOUT, s3)
      else (e, s3))"
  by (subst connect_loop.simps) (simp add: assms)

lemma connect_loop_keeps_handler:
  "notification_handler (snd (connect_loop use_fallback env mode s)) = notification_handler s"
proof (induction use_fallback env mode s rule: connect_loop.induct)
  case (1 use_fallback env current_network_mode s)
  obtain r1 s1 where w1: "at_cmd_write env current_network_mode s = (r1, s1)"
    by (cases "at_cmd_write env current_network_mode s") auto
  obtain r2 s2 where w2: "at_cmd_write env normal s1 = (r2, s2)"
    by (cases "at_cmd_write env normal s1") auto
  obtain e s3 where tk: "k_sem_take_link env s2 = (e, s3)"
    by (cases "k_sem_take_link env s2") auto
  obtain r3 s4 where w3: "at_cmd_write env offline s3 = (r3, s4)"
    by (cases "at_cmd_write env offline s3") auto
  have h1: "notification_handler s1 = notification_handler s"
    using at_cmd_write_keeps_handler [of env current_network_mode s] w1 by simp
  have h2: "notification_handler s2 = notification_handler s"
    using at_cmd_write_keeps_handler [of env normal s1] w2 h1 by simp
  have h3: "notification_handler s3 = notification_handler s"
    using k_sem_take_link_keeps_handler [of env s2] tk h2 by simp
  have h4: "notification_handler s4 = notification_handler s"
    using at_cmd_write_keeps_handler [of env offline s3] w3 h3 by simp
  show ?case
  proof (cases "r1 = 0 \<and> r2 = 0 \<and> e = - EAGAIN \<and> use_fallback \<and>
                current_network_mode = nw_mode_preferred \<and> r3 = 0")
    case True
    have again: "connect_loop use_fallback env current_network_mode s =
        connect_loop use_fallback env nw_mode_fallback s4"
      unfolding connect_loop_pass [OF w1 w2 tk w3] using True by simp
    have "notification_handler (snd (connect_loop use_fallback env nw_mode_fallback s4)) =
        notification_handler s4"
      using "1.IH" [of "(r1, s1)" r1 s1 "(r2, s2)" r2 s2 "(e, s3)" e s3 "(r3, s4)" r3 s4]
        True w1 w2 tk w3 by simp
    then show ?thesis
      using again h4 by simp
  next
    case False
    show ?thesis
      unfolding connect_loop_pass [OF w1 w2 tk w3] using False h1 h2 h3 h4 by auto
  qed
qed

lemma connect_loop_fallback:
  "connect_loop use_fallback env nw_mode_fallback s =
     (let (r, s) = at_cmd_write env nw_mode_fallback s
      in if r \<noteq> 0 then (- EIO, s)
      else
        let (r, s) = at_cmd_write env normal s
        in if r \<noteq> 0 then (- EIO, s)
        else
          let (err, s) = k_sem_take_link env s
          in if err = - EAGAIN then (- ETIMEDOUT, s) else (err, s))"
  by (subst connect_loop.simps) (simp split: prod.splits)

lemma connect_loop_preferred:
  "connect_loop use_fallback env nw_mode_preferred s =
     (let (r, s) = at_cmd_write env nw_mode_preferred s
      in if r \<noteq> 0 then (- EIO, s)
      else
        let (r, s) = at_cmd_write env normal s
        in if r \<noteq> 0 then (- EIO, s)
        else
          let (err, s) = k_sem_take_link env s
          in if err = - EAGAIN then
               if use_fallback then
                 let (r, s) = at_cmd_write env offline s
                 in if r \<noteq> 0 then (- EIO, s)
                    else connect_loop use_fallback env nw_mode_fallback s
               else (- ETIMEDOUT, s)
             else (err, s))"
  by (subst connect_loop.simps) (simp split: prod.splits)

lemma Suc_numerals:
  "Suc (Suc 0) = 2" "Suc (Suc (Suc 0)) = 3" "Suc (Suc (Suc (Suc 0))) = 4"
  "Suc (Suc (Suc (Suc (Suc 0)))) = 5" "Suc (Suc (Suc (Suc (Suc (Suc 0))))) = 6"
  by simp_all

lemma connect_cases [consumes 1, case_names pref_fails normal_fails first_wait_ends
    first_timeout_last offline_fails fallback_fails second_normal_fails second_wait_ends
    second_timeout]:
  assumes "w_lte_lc_connect use_fallback env s0 = (err, s)"
  obtains
    "write_result env 0 \<noteq> 0" "err = - EIO"
      "history s = [Write nw_mode_preferred (write_result env 0)]"
  | "write_result env 0 = 0" "write_result env 1 \<noteq> 0" "err = - EIO"
      "history s = [Write nw_mode_preferred 0, Write normal (write_result env 1)]"
  | "write_result env 0 = 0" "write_result env 1 = 0" "err \<noteq> - EAGAIN"
      "history s = [Write nw_mode_preferred 0, Write normal 0, Wait err]"
  | "write_result env 0 = 0" "write_result env 1 = 0" "\<not> use_fallback" "err = - ETIMEDOUT"
      "history s = [Write nw_mode_preferred 0, Write normal 0, Wait (- EAGAIN)]"
  | "use_fallback" "write_result env 0 = 0" "write_result env 1 = 0"
      "write_result env 3 \<noteq> 0" "err = - EIO"
      "history s = [Write nw_mode_preferred 0, Write normal 0, Wait (- EAGAIN),
                    Write offline (write_result env 3)]"
  | "use_fallback" "write_result env 0 = 0" "write_result env 1 = 0"
      "write_result env 3 = 0" "write_result env 4 \<noteq> 0" "err = - EIO"
      "history s = [Write nw_mode_preferred 0, Write normal 0, Wait (- EAGAIN),
                    Write offline 0, Write nw_mode_fallback (write_result env 4)]"
  | "use_fallback" "write_result env 0 = 0" "write_result env 1 = 0"
      "write_result env 3 = 0" "write_result env 4 = 0" "write_result env 5 \<noteq> 0"
      "err = - EIO"
      "history s = [Write nw_mode_preferred 0, Write normal 0, Wait (- EAGAIN),
                    Write offline 0, Write nw_mode_fallback 0,
                    Write normal (write_result env 5)]"
  | "use_fallback" "write_result env 0 = 0" "write_result env 1 = 0"
      "write_result env 3 = 0" "write_result env 4 = 0" "write_result env 5 = 0"
      "err \<noteq> - EAGAIN"
      "history s = [Write nw_mode_preferred 0, Write normal 0, Wait (- EAGAIN),
                    Write offline 0, Write nw_mode_fallback 0, Write normal 0, Wait err]"
  | "use_fallback" "write_result env 0 = 0" "write_result env 1 = 0"
      "write_result env 3 = 0" "write_result env 4 = 0" "write_result env 5 = 0"
      "err = - ETIMEDOUT"
      "history s = [Write nw_mode_preferred 0, Write normal 0, Wait (- EAGAIN),
                    Write offline 0, Write nw_mode_fallback 0, Write normal 0,
                    Wait (- EAGAIN)]"
  using assms
  unfolding w_lte_lc_connect_def connect_loop_preferred connect_loop_fallback
    at_cmd_write_def k_sem_take_link_def Let_def
  by (auto simp: Suc_numerals split: prod.splits if_splits)


lemma returned_eq:
  "s0\<lparr>link := sem, notification_handler := None, history := h\<rparr> = returned sem h"
  by (cases s0) (simp add: returned_def)

lemma w_lte_lc_connect_quiet:
  "w_lte_lc_connect use_fallback (quiet_modem w) s0 =
    (let h0 = [Write nw_mode_preferred (w 0)] in
     if w 0 \<noteq> 0 then (- EIO, returned (k_sem_init 0 1) h0)
     else let h1 = h0 @ [Write normal (w 1)] in
     if w 1 \<noteq> 0 then (- EIO, returned (k_sem_init 0 1) h1)
     else let h2 = h1 @ [Wait (- EAGAIN)] in
     if \<not> use_fallback then (- ETIMEDOUT, returned (k_sem_init 0 1) h2)
     else let h3 = h2 @ [Write offline (w 3)] in
     if w 3 \<noteq> 0 then (- EIO, returned (k_sem_init 0 1) h3)
     else let h4 = h3 @ [Write nw_mode_fallback (w 4)] in
     if w 4 \<noteq> 0 then (- EIO, returned (k_sem_init 0 1) h4)
     else let h5 = h4 @ [Write normal (w 5)] in
     if w 5 \<noteq> 0 then (- EIO, returned (k_sem_init 0 1) h5)
     else (- ETIMEDOUT, returned (k_sem_init 0 1) (h5 @ [Wait (- EAGAIN)])))"
  by (cases s0)
    (simp add: w_lte_lc_connect_def connect_loop_preferred connect_loop_fallback
      at_cmd_write_def k_sem_take_link_def Let_def quiet_modem_def returned_def
      Suc_numerals k_sem_take_def k_sem_init_def EAGAIN_def)

text \<open>
  Claim C6. \<open>w_lte_lc_connect\<close> registers \<open>at_handler\<close> and takes it out again: whatever
  the slot held before the call, the lines that arrive during the waits of the call are
  handled by \<open>at_handler\<close>, and whichever way the loop is left (success, a failed write,
  time-outs) the slot is empty when the call returns.
\<close>

theorem connect_unregisters_handler:
  assumes "w_lte_lc_connect use_fallback env s0 = (err, s)"
  shows "notification_handler s = None \<and>
         (write_result env 0 = 0 \<and> write_result env 1 = 0 \<longrightarrow>
            2 < length (history s) \<and>
            history s ! 2 =
              Wait (fst (k_sem_take (fold at_handler (unsolicited env 2) (k_sem_init 0 1))))) \<and>
         (use_fallback \<and> write_result env 0 = 0 \<and> write_result env 1 = 0 \<and>
          timed_out (history s) 2 \<and> write_result env 3 = 0 \<and> write_result env 4 = 0 \<and>
          write_result env 5 = 0 \<longrightarrow>
            6 < length (history s) \<and>
            history s ! 6 =
              Wait (fst (k_sem_take (fold at_handler (unsolicited env 6)
                     (fold at_handler (unsolicited env 2) (k_sem_init 0 1))))))"
  using assms
  unfolding w_lte_lc_connect_def connect_loop_preferred connect_loop_fallback
    at_cmd_write_def k_sem_take_link_def Let_def timed_out_def
  by (auto simp: Suc_numerals k_sem_take_def EAGAIN_def split: prod.splits if_splits)

text \<open>
  A call that finds a handler of some earlier user in the slot and a semaphore in some
  other state; the modem reports a roaming registration during the wait in fallback mode.
\<close>

theorem connect_unregisters_handler_witness:
  "w_lte_lc_connect True
     \<lparr>write_result = (\<lambda>n. 0),
      unsolicited = (\<lambda>n. if n = 6 then [at_line ''+CEREG'' (Some 5)] else [])\<rparr>
     \<lparr>link = \<lparr>count = 3, limit = 5\<rparr>, notification_handler = Some (\<lambda>response sem. sem),
      history = [Wait 0]\<rparr> =
     (0, returned \<lparr>count = 0, limit = 1\<rparr>
           [Write nw_mode_preferred 0, Write normal 0, Wait (- EAGAIN), Write offline 0,
            Write nw_mode_fallback 0, Write normal 0, Wait 0]) \<and>
   notification_handler (returned \<lparr>count = 0, limit = 1\<rparr>
           [Write nw_mode_preferred 0, Write normal 0, Wait (- EAGAIN), Write offline 0,
            Write nw_mode_fallback 0, Write normal 0, Wait 0]) = None \<and>
   timed_out [Write nw_mode_preferred 0, Write normal 0, Wait (- EAGAIN), Write offline 0,
            Write nw_mode_fallback 0, Write normal 0, Wait 0] 2 \<and>
   fst (k_sem_take (fold at_handler [at_line ''+CEREG'' (Some 5)]
          (fold at_handler [] (k_sem_init 0 1)))) = 0"
proof -
  let ?env = "\<lparr>write_result = (\<lambda>n. 0),
      unsolicited = (\<lambda>n. if n = 6 then [at_line ''+CEREG'' (Some 5)] else [])\<rparr>"
  let ?s0 = "\<lparr>link = \<lparr>count = 3, limit = 5\<rparr>,
      notification_handler = Some (\<lambda>response sem. sem), history = [Wait 0]\<rparr>"
  let ?h = "[Write nw_mode_preferred 0, Write normal 0, Wait (- EAGAIN), Write offline 0,
            Write nw_mode_fallback 0, Write normal 0, Wait 0]"
  have run: "w_lte_lc_connect True ?env ?s0 = (0, returned \<lparr>count = 0, limit = 1\<rparr> ?h)"
    unfolding w_lte_lc_connect_def connect_loop_preferred connect_loop_fallback
      at_cmd_write_def k_sem_take_link_def Let_def
    by (simp add: Suc_numerals k_sem_take_def k_sem_init_def k_sem_give_def at_handler_def
        at_line_def stored_def returned_def EAGAIN_def)
  have t: "timed_out ?h 2"
    by (simp add: timed_out_def)
  show ?thesis
    using connect_unregisters_handler [OF run] run t
    by (simp add: returned_def)
qed


text \<open>
  Claim C5. A write that fails, of whichever command, is the last step of the call and the
  call returns \<open>-EIO\<close>: the command is not sent again and neither a further command nor a
  further wait follows.
\<close>

theorem write_failure_is_fatal:
  assumes "w_lte_lc_connect use_fallback env s0 = (err, s)"
    and "k < length (history s)" and "history s ! k = Write cmd r" and "r \<noteq> 0"
  shows "err = - EIO \<and> Suc k = length (history s)"
  using assms
  by (cases rule: connect_cases) (auto simp: nth_Cons' split: if_splits)

text \<open>
  The activation command fails in fallback mode, as step 5.
\<close>

theorem write_failure_is_fatal_witness:
  "w_lte_lc_connect True (quiet_modem (\<lambda>n. if n = 5 then - 1 else 0)) boot =
     (- EIO, returned (k_sem_init 0 1)
        [Write nw_mode_preferred 0, Write normal 0, Wait (- EAGAIN), Write offline 0,
         Write nw_mode_fallback 0, Write normal (- 1)]) \<and>
   (5::nat) < length [Write nw_mode_preferred 0, Write normal 0, Wait (- EAGAIN), Write offline 0,
                   Write nw_mode_fallback 0, Write normal (- 1)] \<and>
   [Write nw_mode_preferred 0, Write normal 0, Wait (- EAGAIN), Write offline 0,
                   Write nw_mode_fallback 0, Write normal (- 1)] ! 5 = Write normal (- 1) \<and>
   (- 1 :: int) \<noteq> 0 \<and>
   Suc 5 = length [Write nw_mode_preferred 0, Write normal 0, Wait (- EAGAIN), Write offline 0,
                   Write nw_mode_fallback 0, Write normal (- 1)]"
proof -
  let ?h = "[Write nw_mode_preferred 0, Write normal 0, Wait (- EAGAIN), Write offline 0,
             Write nw_mode_fallback 0, Write normal (- 1)]"
  let ?s = "returned (k_sem_init 0 1) ?h"
  have run: "w_lte_lc_connect True (quiet_modem (\<lambda>n. if n = 5 then - 1 else 0)) boot =
      (- EIO, ?s)"
    by (simp add: w_lte_lc_connect_quiet)
  have k: "5 < length (history ?s)" by (simp add: returned_def)
  have e: "history ?s ! 5 = Write normal (- 1)" by (simp add: returned_def)
  have r: "(- 1 :: int) \<noteq> 0" by simp
  show ?thesis
    using write_failure_is_fatal [OF run k e r] run by simp
qed


text \<open>
  Claim C2 as stated (with fallback enabled, every time-out of the first wait is followed by
  one offline command and then one fallback mode-selection command) fails when the write of
  the offline command itself fails: the call ends there with \<open>-EIO\<close> and no fallback
  mode-selection command is sent.
\<close>

theorem offline_failure_counterexample:
  "w_lte_lc_connect True (quiet_modem (\<lambda>n. if n = 3 then - 1 else 0)) boot =
     (- EIO, returned (k_sem_init 0 1)
        [Write nw_mode_preferred 0, Write normal 0, Wait (- EAGAIN), Write offline (- 1)]) \<and>
   commands [Write nw_mode_preferred 0, Write normal 0, Wait (- EAGAIN), Write offline (- 1)] =
     [nw_mode_preferred, normal, offline]"
  by (simp add: w_lte_lc_connect_quiet)

text \<open>
  Claim C2, amended. With fallback enabled: the offline command and the fallback
  mode-selection command are each sent at most once per call; when the first wait (step 2)
  times out, exactly one offline command is sent, right after it; when that write succeeds,
  exactly one fallback mode-selection command follows it; when that write fails, the call
  returns \<open>-EIO\<close> with the offline command as its last step and no fallback mode-selection
  command sent; and when the wait in fallback mode (step 6) times out too, the call returns
  \<open>-ETIMEDOUT\<close> with nothing sent after that wait.
\<close>

theorem fallback_after_first_timeout:
  assumes "w_lte_lc_connect True env s0 = (err, s)"
  shows "count_list (commands (history s)) offline \<le> 1 \<and>
         count_list (commands (history s)) nw_mode_fallback \<le> 1 \<and>
         (timed_out (history s) 2 \<longrightarrow>
            take 3 (commands (history s)) = [nw_mode_preferred, normal, offline] \<and>
            count_list (commands (history s)) offline = 1) \<and>
         (timed_out (history s) 2 \<and> write_result env 3 = 0 \<longrightarrow>
            take 4 (commands (history s)) =
              [nw_mode_preferred, normal, offline, nw_mode_fallback] \<and>
            count_list (commands (history s)) nw_mode_fallback = 1 \<and>
            count_list (commands (history s)) nw_mode_preferred = 1) \<and>
         (timed_out (history s) 2 \<and> write_result env 3 \<noteq> 0 \<longrightarrow>
            err = - EIO \<and>
            history s = [Write nw_mode_preferred 0, Write normal 0, Wait (- EAGAIN),
                         Write offline (write_result env 3)] \<and>
            count_list (commands (history s)) nw_mode_fallback = 0) \<and>
         (timed_out (history s) 6 \<longrightarrow>
            err = - ETIMEDOUT \<and>
            history s = [Write nw_mode_preferred 0, Write normal 0, Wait (- EAGAIN),
                         Write offline 0, Write nw_mode_fallback 0, Write normal 0,
                         Wait (- EAGAIN)])"
  using assms
  by (cases rule: connect_cases) (simp_all add: timed_out_def)

text \<open>
  A modem that accepts every command and never reports a registration, and one that
  refuses the offline command.
\<close>

theorem fallback_after_first_timeout_witness:
  "w_lte_lc_connect True (quiet_modem (\<lambda>n. 0)) boot =
     (- ETIMEDOUT, returned (k_sem_init 0 1)
        [Write nw_mode_preferred 0, Write normal 0, Wait (- EAGAIN), Write offline 0,
         Write nw_mode_fallback 0, Write normal 0, Wait (- EAGAIN)]) \<and>
   timed_out [Write nw_mode_preferred 0, Write normal 0, Wait (- EAGAIN), Write offline 0,
              Write nw_mode_fallback 0, Write normal 0, Wait (- EAGAIN)] 2 \<and>
   write_result (quiet_modem (\<lambda>n. 0)) 3 = 0 \<and>
   timed_out [Write nw_mode_preferred 0, Write normal 0, Wait (- EAGAIN), Write offline 0,
              Write nw_mode_fallback 0, Write normal 0, Wait (- EAGAIN)] 6 \<and>
   commands [Write nw_mode_preferred 0, Write normal 0, Wait (- EAGAIN), Write offline 0,
             Write nw_mode_fallback 0, Write normal 0, Wait (- EAGAIN)] =
     [nw_mode_preferred, normal, offline, nw_mode_fallback, normal] \<and>
   w_lte_lc_connect True (quiet_modem (\<lambda>n. if n = 3 then - 5 else 0)) boot =
     (- EIO, returned (k_sem_init 0 1)
        [Write nw_mode_preferred 0, Write normal 0, Wait (- EAGAIN), Write offline (- 5)]) \<and>
   timed_out [Write nw_mode_preferred 0, Write normal 0, Wait (- EAGAIN),
              Write offline (- 5)] 2 \<and>
   write_result (quiet_modem (\<lambda>n. if n = 3 then - 5 else 0)) 3 \<noteq> 0 \<and>
   count_list (commands [Write nw_mode_preferred 0, Write normal 0, Wait (- EAGAIN),
                         Write offline (- 5)]) nw_mode_fallback = 0"
proof -
  let ?h = "[Write nw_mode_preferred 0, Write normal 0, Wait (- EAGAIN), Write offline 0,
             Write nw_mode_fallback 0, Write normal 0, Wait (- EAGAIN)]"
  let ?g = "[Write nw_mode_preferred 0, Write normal 0, Wait (- EAGAIN), Write offline (- 5)]"
  have run: "w_lte_lc_connect True (quiet_modem (\<lambda>n. 0)) boot =
      (- ETIMEDOUT, returned (k_sem_init 0 1) ?h)"
    by (simp add: w_lte_lc_connect_quiet)
  have run': "w_lte_lc_connect True (quiet_modem (\<lambda>n. if n = 3 then - 5 else 0)) boot =
      (- EIO, returned (k_sem_init 0 1) ?g)"
    by (simp add: w_lte_lc_connect_quiet)
  have t: "timed_out ?h 2" "timed_out ?h 6" "timed_out ?g 2"
    by (simp_all add: timed_out_def)
  have w: "write_result (quiet_modem (\<lambda>n. 0)) 3 = 0"
    "write_result (quiet_modem (\<lambda>n. if n = 3 then - 5 else 0)) 3 \<noteq> 0"
    by (simp_all add: quiet_modem_def)
  show ?thesis
    using fallback_after_first_timeout [OF run] fallback_after_first_timeout [OF run']
      run run' t w
    by (simp add: returned_def)
qed







end
